theory Spec2Isabelle
  imports Complex_Main "HOL-Library.Log_Nat"
begin

section \<open>Constants of \<^verbatim>\<open>mines.py\<close>\<close>

definition MIN_BET :: int where "MIN_BET = 10"
definition MAX_BET :: int where "MAX_BET = 500000"
definition DEFAULT_BET :: int where "DEFAULT_BET = 50"

definition GRID_WIDTH :: nat where "GRID_WIDTH = 3"
definition GRID_HEIGHT :: nat where "GRID_HEIGHT = 3"
definition TOTAL_TILES :: int where "TOTAL_TILES = int (GRID_WIDTH * GRID_HEIGHT)"

definition MAX_MINES :: int where "MAX_MINES = TOTAL_TILES - 1"
definition MIN_MINES :: int where "MIN_MINES = 1"

section \<open>Python numbers\<close>

text \<open>
  Python's \<^verbatim>\<open>int\<close> is unbounded and is modelled by \<^typ>\<open>int\<close>. A Python \<^verbatim>\<open>float\<close> is an
  IEEE 754 binary64 number; a finite one is modelled by the rational it denotes, and every
  float operation is the exact operation followed by \<open>fl\<close>, rounding to the nearest
  binary64 number with ties to the even significand (53 bits, least exponent \<open>-1022\<close>,
  gradual underflow). A rounded value of magnitude \<open>2 ^ 1024\<close> or more stands for an
  overflow.
\<close>

datatype py_error = ZeroDivisionError | OverflowError | IndexError

definition pow2 :: "int \<Rightarrow> rat" where
  "pow2 e = (if 0 \<le> e then 2 ^ nat e else 1 / 2 ^ nat (- e))"

text \<open>The binary exponent of a positive rational: \<open>pow2 (expo x) \<le> x < pow2 (expo x + 1)\<close>.\<close>

definition expo :: "rat \<Rightarrow> int" where
  "expo x = (if 1 \<le> x then bitlen \<lfloor>x\<rfloor> - 1 else - bitlen (\<lceil>1 / x\<rceil> - 1))"

definition round_half_even :: "rat \<Rightarrow> int" where
  "round_half_even y =
     (let f = \<lfloor>y\<rfloor>; r = y - of_int f
      in if r < 1 / 2 then f else if 1 / 2 < r then f + 1 else if even f then f else f + 1)"

text \<open>The spacing of the binary64 numbers around \<open>x\<close>.\<close>

definition quantum :: "rat \<Rightarrow> rat" where
  "quantum x = pow2 (max (expo \<bar>x\<bar>) (- 1022) - 52)"

definition fl :: "rat \<Rightarrow> rat" where
  "fl x = (if x = 0 then 0
           else sgn x * of_int (round_half_even (\<bar>x\<bar> / quantum x)) * quantum x)"

definition finite_double :: "rat \<Rightarrow> bool" where
  "finite_double r = (\<bar>r\<bar> < 2 ^ 1024)"

text \<open>\<^verbatim>\<open>float(n)\<close> for an int, also implicit in \<^verbatim>\<open>int * float\<close> and \<^verbatim>\<open>float ** int\<close>.\<close>

definition float_of_int :: "int \<Rightarrow> py_error + rat" where
  "float_of_int n =
     (let r = fl (of_int n) in if finite_double r then Inr r else Inl OverflowError)"

text \<open>\<^verbatim>\<open>a / b\<close> on two ints: the correctly rounded quotient.\<close>

definition py_truediv :: "int \<Rightarrow> int \<Rightarrow> py_error + rat" where
  "py_truediv a b =
     (if b = 0 then Inl ZeroDivisionError
      else let r = fl (of_int a / of_int b)
           in if finite_double r then Inr r else Inl OverflowError)"

text \<open>
  \<^verbatim>\<open>x ** k\<close> for a float and an int: the exponent is converted to a float and the
  platform's \<^verbatim>\<open>pow\<close> is called. The library function is taken to round correctly; where the
  power is itself a binary64 number (every power the 3 by 3 board reaches, but those of
  \<open>9 / 7\<close> and \<open>9 / 5\<close>) any library with an error below one unit in the last place
  returns this value.
\<close>

definition py_float_pow :: "rat \<Rightarrow> int \<Rightarrow> py_error + rat" where
  "py_float_pow x k =
     (case float_of_int k of
        Inl e \<Rightarrow> Inl e
      | Inr kf \<Rightarrow>
          if kf < 0 \<and> x = 0 then Inl ZeroDivisionError
          else let r = fl (if 0 \<le> kf then x ^ nat \<lfloor>kf\<rfloor> else 1 / x ^ nat (- \<lfloor>kf\<rfloor>))
               in if finite_double r then Inr r else Inl OverflowError)"

definition py_float_mul :: "rat \<Rightarrow> rat \<Rightarrow> rat" where
  "py_float_mul a b = fl (a * b)"

text \<open>\<^verbatim>\<open>int(x)\<close> on a float truncates towards zero.\<close>

definition py_int :: "rat \<Rightarrow> int" where
  "py_int x = (if 0 \<le> x then \<lfloor>x\<rfloor> else \<lceil>x\<rceil>)"

text \<open>
  \<^verbatim>\<open>int(b * m)\<close> for an int \<open>b\<close> and a float \<open>m\<close>: \<open>b\<close> is converted, the product is
  rounded, and an infinite product makes \<^verbatim>\<open>int\<close> raise.
\<close>

definition py_int_times_float :: "int \<Rightarrow> rat \<Rightarrow> py_error + int" where
  "py_int_times_float b m =
     (case float_of_int b of
        Inl e \<Rightarrow> Inl e
      | Inr bf \<Rightarrow>
          let p = py_float_mul bf m
          in if finite_double p then Inr (py_int p) else Inl OverflowError)"

section \<open>The payout multiplier\<close>

text \<open>
  \<^verbatim>\<open>calculate_multiplier(safe_tiles, mines_count, tiles_revealed)\<close>. The literals
  \<^verbatim>\<open>0.95\<close> and \<^verbatim>\<open>1000.0\<close> are the binary64 numbers nearest to them; the first
  parameter is not read.
\<close>

definition house_edge :: rat where
  "house_edge = fl (95 / 100)"

definition max_multiplier :: rat where
  "max_multiplier = 1000"

definition calculate_multiplier :: "int \<Rightarrow> int \<Rightarrow> int \<Rightarrow> py_error + rat" where
  "calculate_multiplier safe_tiles mines_count tiles_revealed =
     (if tiles_revealed = 0 then Inr 1
      else case py_truediv TOTAL_TILES (TOTAL_TILES - mines_count) of
             Inl e \<Rightarrow> Inl e
           | Inr base \<Rightarrow>
               (case py_float_pow base tiles_revealed of
                  Inl e \<Rightarrow> Inl e
                | Inr multiplier \<Rightarrow>
                    Inr (min (py_float_mul multiplier house_edge) max_multiplier)))"

section \<open>The ledger, the statistics and the registry\<close>

text \<open>
  The calls a session makes to its collaborators are recorded, in program order, in a
  trace: \<open>AddCash\<close> is \<^verbatim>\<open>economy_system.add_cash(user, amount, kind, ...)\<close>,
  \<open>RecordStats\<close> is \<^verbatim>\<open>record_mines_stats(user, bet, win, mines, revealed)\<close>,
  \<open>SetGameOver\<close> marks an assignment \<^verbatim>\<open>self.game_over = True\<close>, and \<open>Raised\<close> an
  exception leaving the callback. Messages, embeds and the buttons' presentation
  attributes are not modelled; a call to a collaborator is taken to return.
\<close>

datatype effect =
    AddCash int int string
  | RecordStats int int int int int
  | SetGameOver
  | Raised py_error

text \<open>
  \<open>active_games\<close> is the module's dictionary of that name, of which only the keys are
  read. \<open>cash\<close> is the balance the economy system keeps for each user.
\<close>

record sys =
  active_games :: "int set"
  cash :: "int \<Rightarrow> int"
  trace :: "effect list"

definition emit :: "effect \<Rightarrow> sys \<Rightarrow> sys" where
  "emit e s = s\<lparr>trace := trace s @ [e]\<rparr>"

text \<open>
  Modelled from the spec: \<^verbatim>\<open>economy_system\<close> (module \<^verbatim>\<open>commands.economy\<close>) is not among
  the sources. Following the Ledger contract, \<^verbatim>\<open>add_cash\<close> with a positive amount is a
  credit and with a negative amount a debit: the balance moves by the amount.
\<close>

definition add_cash :: "int \<Rightarrow> int \<Rightarrow> string \<Rightarrow> sys \<Rightarrow> sys" where
  "add_cash uid amount kind s =
     emit (AddCash uid amount kind) (s\<lparr>cash := (cash s)(uid := cash s uid + amount)\<rparr>)"

definition update_user_balance :: "int \<Rightarrow> int \<Rightarrow> sys \<Rightarrow> sys" where
  "update_user_balance uid amount s =
     (if 0 < amount then add_cash uid amount ''mines_win'' s
      else if amount < 0 then add_cash uid amount ''mines_bet'' s
      else s)"

definition record_mines_stats :: "int \<Rightarrow> int \<Rightarrow> int \<Rightarrow> int \<Rightarrow> int \<Rightarrow> sys \<Rightarrow> sys" where
  "record_mines_stats uid b win mc revealed_count s =
     emit (RecordStats uid b win mc revealed_count) s"

definition pop_active_game :: "int \<Rightarrow> sys \<Rightarrow> sys" where
  "pop_active_game uid s =
     (if uid \<in> active_games s then s\<lparr>active_games := active_games s - {uid}\<rparr> else s)"

section \<open>Tiles and the view\<close>

record MineTile =
  is_mine :: bool
  revealed :: bool

definition mark_as_mine :: "MineTile \<Rightarrow> MineTile" where
  "mark_as_mine t = t\<lparr>is_mine := True\<rparr>"

definition reveal :: "MineTile \<Rightarrow> MineTile" where
  "reveal t = t\<lparr>revealed := True\<rparr>"

record MinesView =
  user_id :: int
  bet :: int
  mines_count :: int
  tiles :: "MineTile list list"
  game_over :: bool
  won :: bool
  tiles_revealed :: int
  safe_tiles :: int
  current_multiplier :: rat
  potential_win :: int

definition create_grid :: "MineTile list list" where
  "create_grid = replicate GRID_WIDTH (replicate GRID_HEIGHT \<lparr>is_mine = False, revealed = False\<rparr>)"

definition tile_at :: "MineTile list list \<Rightarrow> nat \<Rightarrow> nat \<Rightarrow> MineTile option" where
  "tile_at ts x y = (if x < length ts \<and> y < length (ts ! x) then Some (ts ! x ! y) else None)"

definition tile_update :: "nat \<Rightarrow> nat \<Rightarrow> (MineTile \<Rightarrow> MineTile) \<Rightarrow> MineTile list list \<Rightarrow> MineTile list list" where
  "tile_update x y f ts = ts[x := (ts ! x)[y := f (ts ! x ! y)]]"

text \<open>
  \<^verbatim>\<open>_setup_mines\<close>: \<open>mine_positions\<close> is the list \<^verbatim>\<open>random.sample(range(TOTAL_TILES),
  mines_count)\<close> returned, so the positions are below \<open>TOTAL_TILES\<close>.
\<close>

definition setup_mines :: "nat list \<Rightarrow> MineTile list list \<Rightarrow> MineTile list list" where
  "setup_mines mine_positions ts =
     fold (\<lambda>pos. tile_update (pos mod GRID_WIDTH) (pos div GRID_WIDTH) mark_as_mine) mine_positions ts"

definition MinesView_init :: "int \<Rightarrow> int \<Rightarrow> int \<Rightarrow> nat list \<Rightarrow> MinesView" where
  "MinesView_init uid bet_amount mc mine_positions =
     \<lparr>user_id = uid, bet = bet_amount, mines_count = mc,
      tiles = setup_mines mine_positions create_grid,
      game_over = False, won = False, tiles_revealed = 0,
      safe_tiles = TOTAL_TILES - mc, current_multiplier = 1, potential_win = bet_amount\<rparr>"

definition reveal_mines :: "MineTile list list \<Rightarrow> MineTile list list" where
  "reveal_mines ts = map (map (\<lambda>t. if is_mine t \<and> \<not> revealed t then reveal t else t)) ts"

definition reveal_all :: "MineTile list list \<Rightarrow> MineTile list list" where
  "reveal_all ts = map (map (\<lambda>t. if \<not> revealed t then reveal t else t)) ts"

section \<open>The view's transitions\<close>

text \<open>
  The callbacks of \<^verbatim>\<open>MinesView\<close>, each a function of the view and of the state of its
  collaborators, the statements in the order of the source. \<^verbatim>\<open>_handle_victory\<close> and
  \<^verbatim>\<open>_process_cashout\<close> are written without the leading underscore. A click carries the
  coordinates of its button.
\<close>

definition handle_victory :: "MinesView \<times> sys \<Rightarrow> MinesView \<times> sys" where
  "handle_victory = (\<lambda>(v, s).
     let v1 = v\<lparr>game_over := True, won := True\<rparr>;
         s1 = emit SetGameOver s;
         final_payout = min (potential_win v1) (bet v1 * 1000);
         s2 = update_user_balance (user_id v1) final_payout s1;
         s3 = record_mines_stats (user_id v1) (bet v1) final_payout (mines_count v1)
                (tiles_revealed v1) s2
     in (v1, pop_active_game (user_id v1) s3))"

definition process_tile_click :: "nat \<Rightarrow> nat \<Rightarrow> MinesView \<times> sys \<Rightarrow> MinesView \<times> sys" where
  "process_tile_click x y = (\<lambda>(v, s).
     if game_over v then (v, s)
     else case tile_at (tiles v) x y of
       None \<Rightarrow> (v, emit (Raised IndexError) s)
     | Some tile \<Rightarrow>
         if revealed tile then (v, s)
         else if is_mine tile then
           let v1 = v\<lparr>tiles := reveal_mines (tile_update x y reveal (tiles v))\<rparr>;
               v2 = v1\<lparr>game_over := True, won := False\<rparr>;
               s1 = emit SetGameOver s;
               s2 = record_mines_stats (user_id v2) (bet v2) 0 (mines_count v2)
                      (tiles_revealed v2) s1
           in (v2, pop_active_game (user_id v2) s2)
         else
           let v1 = v\<lparr>tiles := tile_update x y reveal (tiles v),
                      tiles_revealed := tiles_revealed v + 1\<rparr>
           in case calculate_multiplier (safe_tiles v1) (mines_count v1) (tiles_revealed v1) of
                Inl e \<Rightarrow> (v1, emit (Raised e) s)
              | Inr m \<Rightarrow>
                  let v2 = v1\<lparr>current_multiplier := m\<rparr>
                  in case py_int_times_float (bet v2) (current_multiplier v2) of
                       Inl e \<Rightarrow> (v2, emit (Raised e) s)
                     | Inr p \<Rightarrow>
                         let v3 = v2\<lparr>potential_win := p\<rparr>
                         in if tiles_revealed v3 = safe_tiles v3 then handle_victory (v3, s)
                            else (v3, s))"

definition process_cashout :: "MinesView \<times> sys \<Rightarrow> MinesView \<times> sys" where
  "process_cashout = (\<lambda>(v, s).
     if game_over v \<or> tiles_revealed v = 0 then (v, s)
     else
       let winnings = potential_win v;
           s1 = update_user_balance (user_id v) winnings s;
           s2 = record_mines_stats (user_id v) (bet v) winnings (mines_count v)
                  (tiles_revealed v) s1;
           v1 = v\<lparr>game_over := True, won := True\<rparr>;
           s3 = emit SetGameOver s2;
           v2 = v1\<lparr>tiles := reveal_mines (tiles v1)\<rparr>
       in (v2, pop_active_game (user_id v2) s3))"

definition cashout_callback :: "MinesView \<times> sys \<Rightarrow> MinesView \<times> sys" where
  "cashout_callback = process_cashout"

definition exit_callback :: "MinesView \<times> sys \<Rightarrow> MinesView \<times> sys" where
  "exit_callback = (\<lambda>(v, s).
     let s1 = (if tiles_revealed v = 0 \<and> \<not> game_over v
               then update_user_balance (user_id v) (bet v) s else s);
         v1 = v\<lparr>tiles := reveal_all (tiles v)\<rparr>;
         v2 = v1\<lparr>game_over := True\<rparr>;
         s2 = emit SetGameOver s1
     in (v2, pop_active_game (user_id v2) s2))"

definition on_timeout :: "MinesView \<times> sys \<Rightarrow> MinesView \<times> sys" where
  "on_timeout = (\<lambda>(v, s).
     if game_over v then (v, s)
     else
       let (v1, s1) =
             (if 0 < tiles_revealed v then process_cashout (v, s)
              else if tiles_revealed v = 0
                then (v\<lparr>tiles := reveal_all (tiles v)\<rparr>,
                      update_user_balance (user_id v) (bet v) s)
              else (v, s));
           v2 = v1\<lparr>game_over := True\<rparr>;
           s2 = emit SetGameOver s1
       in (v2, pop_active_game (user_id v2) s2))"

section \<open>Sessions\<close>

datatype action = Click nat nat | CashOut | Exit | Timeout

fun step :: "action \<Rightarrow> MinesView \<times> sys \<Rightarrow> MinesView \<times> sys" where
  "step (Click x y) w = process_tile_click x y w"
| "step CashOut w = cashout_callback w"
| "step Exit w = exit_callback w"
| "step Timeout w = on_timeout w"

text \<open>
  The session of a player whose bet was taken and whose view was built with the mines at
  \<open>mine_positions\<close>, after the actions \<open>acts\<close>, each run to its end before the next.
  The trace starts empty and the balances are counted from the start of the session.
  A session starts from a validated bet and mine count: \<^verbatim>\<open>MinesCog.mines\<close> and
  \<^verbatim>\<open>MinesCountModal.callback\<close> let no other through.
\<close>

definition session_start :: "int \<Rightarrow> int \<Rightarrow> int \<Rightarrow> nat list \<Rightarrow> MinesView \<times> sys" where
  "session_start uid bet_amount mc mine_positions =
     (MinesView_init uid bet_amount mc mine_positions,
      \<lparr>active_games = {uid}, cash = (\<lambda>u. 0), trace = []\<rparr>)"

definition session_after :: "int \<Rightarrow> int \<Rightarrow> int \<Rightarrow> nat list \<Rightarrow> action list \<Rightarrow> MinesView \<times> sys" where
  "session_after uid bet_amount mc mine_positions acts =
     fold step acts (session_start uid bet_amount mc mine_positions)"

text \<open>The collaborators with no game running, nothing traced, and the balance \<open>c\<close> for every user.\<close>

definition idle_sys :: "int \<Rightarrow> sys" where
  "idle_sys c = \<lparr>active_games = {}, cash = (\<lambda>u. c), trace = []\<rparr>"

definition valid_start :: "int \<Rightarrow> int \<Rightarrow> bool" where
  "valid_start bet_amount mc =
     (MIN_BET \<le> bet_amount \<and> bet_amount \<le> MAX_BET \<and> MIN_MINES \<le> mc \<and> mc \<le> MAX_MINES)"

section \<open>The command and the mine-count modal\<close>

text \<open>
  \<^verbatim>\<open>_parse_amount_shorthand\<close> is not among the sources: what it did with the text is a
  parameter of the command, a number, \<^verbatim>\<open>None\<close>, or an exception.
\<close>

datatype parse_result = Parsed int | ParsedNone | ParseRaised

datatype bet_arg = BetAll | BetText parse_result

datatype reply =
    AlreadyActive | InvalidAmount | BetTooLow | BetTooHigh | NotEnoughBalance
  | ModalSent int | ModalFailed

text \<open>
  \<^verbatim>\<open>MinesCog.mines\<close>; \<open>modal_ok\<close> tells whether \<^verbatim>\<open>send_modal\<close> returned. The check
  \<^verbatim>\<open>not_blacklisted\<close> of \<^verbatim>\<open>luna.py\<close> lets every user pass.
\<close>

definition mines :: "int \<Rightarrow> bet_arg \<Rightarrow> bool \<Rightarrow> sys \<Rightarrow> reply \<times> sys" where
  "mines uid arg modal_ok s =
     (if uid \<in> active_games s then (AlreadyActive, s)
      else
        let c = cash s uid
        in case (case arg of
                   BetAll \<Rightarrow> Some c
                 | BetText (Parsed n) \<Rightarrow> Some n
                 | BetText ParsedNone \<Rightarrow> None
                 | BetText ParseRaised \<Rightarrow> Some DEFAULT_BET) of
             None \<Rightarrow> (InvalidAmount, s)
           | Some bet_amount \<Rightarrow>
               if bet_amount < MIN_BET then (BetTooLow, s)
               else if MAX_BET < bet_amount then (BetTooHigh, s)
               else if c < bet_amount then (NotEnoughBalance, s)
               else
                 let s1 = add_cash uid (- bet_amount) ''mines_bet'' s
                 in if modal_ok
                    then (ModalSent bet_amount, s1\<lparr>active_games := insert uid (active_games s1)\<rparr>)
                    else (ModalFailed, add_cash uid bet_amount ''mines_refund'' s1))"

text \<open>\<^verbatim>\<open>MinesCog.start_game\<close>.\<close>

definition start_game :: "int \<Rightarrow> int \<Rightarrow> int \<Rightarrow> nat list \<Rightarrow> sys \<Rightarrow> MinesView option \<times> sys" where
  "start_game uid bet_amount mc mine_positions s =
     (if uid \<notin> active_games s then (None, add_cash uid bet_amount ''mines_refund'' s)
      else (Some (MinesView_init uid bet_amount mc mine_positions), s))"

text \<open>
  \<^verbatim>\<open>MinesCountModal.callback\<close>; \<open>mines_input\<close> is what \<^verbatim>\<open>int(self.mines_input.value)\<close>
  gave, \<open>None\<close> for a \<^verbatim>\<open>ValueError\<close>.
\<close>

definition MinesCountModal_callback ::
    "int \<Rightarrow> int \<Rightarrow> int option \<Rightarrow> nat list \<Rightarrow> sys \<Rightarrow> MinesView option \<times> sys" where
  "MinesCountModal_callback uid bet_amount mines_input mine_positions s =
     (case mines_input of
        None \<Rightarrow> (None, update_user_balance uid bet_amount s)
      | Some mc \<Rightarrow>
          if mc < MIN_MINES \<or> MAX_MINES < mc
          then (None, update_user_balance uid bet_amount s)
          else start_game uid bet_amount mc mine_positions s)"

section \<open>Observations and invariants\<close>

text \<open>The amounts passed to the ledger, and the statistics calls, of a trace.\<close>

fun credited :: "effect list \<Rightarrow> int list" where
  "credited [] = []"
| "credited (AddCash u a k # es) = a # credited es"
| "credited (e # es) = credited es"

fun recorded :: "effect list \<Rightarrow> effect list" where
  "recorded [] = []"
| "recorded (RecordStats u b w m r # es) = RecordStats u b w m r # recorded es"
| "recorded (e # es) = recorded es"

text \<open>
  The multiplier as the specification words it, for a board of \<open>total_tiles\<close> tiles: one
  for no reveal, otherwise the base \<open>total_tiles / (total_tiles - hazards)\<close> raised to the
  number of reveals, times the house edge \<open>0.95\<close>, capped at \<open>1000.0\<close>, every operation
  in binary64.
\<close>

definition spec_multiplier :: "int \<Rightarrow> int \<Rightarrow> int \<Rightarrow> rat" where
  "spec_multiplier total_tiles hazards k =
     (if k = 0 then 1
      else min (fl (fl (fl (of_int total_tiles / of_int (total_tiles - hazards)) ^ nat k)
                    * fl (95 / 100))) 1000)"

text \<open>
  The same on the board of \<open>TOTAL_TILES = 9\<close> tiles after at least one reveal: what
  \<open>calculate_multiplier\<close> returns when no operation raises.
\<close>

definition multiplier_formula :: "int \<Rightarrow> int \<Rightarrow> rat" where
  "multiplier_formula mc k =
     min (fl (fl (fl (9 / of_int (9 - mc)) ^ nat k) * fl (95 / 100))) 1000"

text \<open>What holds of the view of every session that started from a validated bet and mine count.\<close>

definition view_ok :: "MinesView \<Rightarrow> bool" where
  "view_ok v =
     (MIN_BET \<le> bet v \<and> bet v \<le> MAX_BET \<and>
      MIN_MINES \<le> mines_count v \<and> mines_count v \<le> MAX_MINES \<and>
      safe_tiles v = TOTAL_TILES - mines_count v \<and>
      0 \<le> tiles_revealed v \<and> tiles_revealed v \<le> safe_tiles v \<and>
      (\<not> game_over v \<longrightarrow> tiles_revealed v < safe_tiles v) \<and>
      calculate_multiplier (safe_tiles v) (mines_count v) (tiles_revealed v)
        = Inr (current_multiplier v) \<and>
      py_int_times_float (bet v) (current_multiplier v) = Inr (potential_win v))"


section \<open>Properties of binary64 rounding\<close>

subsection \<open>Powers of two and the exponent\<close>


lemma pow2_powi: "pow2 e = 2 powi e"
  by (simp add: pow2_def power_int_def field_simps)

lemma pow2_pos: "0 < pow2 e"
  by (simp add: pow2_def)

lemma pow2_add: "pow2 (a + b) = pow2 a * pow2 b"
  by (simp add: pow2_powi power_int_add)

lemma pow2_mono: "a \<le> b \<Longrightarrow> pow2 a \<le> pow2 b"
  by (simp add: pow2_powi power_int_increasing)

lemma pow2_strict_mono: "a < b \<Longrightarrow> pow2 a < pow2 b"
  by (simp add: pow2_powi power_int_strict_increasing)

lemma pow2_nat: "pow2 (int n) = 2 ^ n"
  by (simp add: pow2_def)

lemma expo_bounds:
  assumes "0 < x"
  shows "pow2 (expo x) \<le> x" and "x < pow2 (expo x + 1)"
proof -
  have "pow2 (expo x) \<le> x \<and> x < pow2 (expo x + 1)"
  proof (cases "1 \<le> x")
    case True
    define n where "n = \<lfloor>x\<rfloor>"
    have n: "0 < n" using True by (simp add: n_def)
    from bitlen_bounds[OF n] have b: "2 ^ nat (bitlen n - 1) \<le> n" "n < 2 ^ nat (bitlen n)"
      by auto
    have bl: "1 \<le> bitlen n" using n bitlen_eq_zero_iff[of n] bitlen_nonneg[of n] by linarith
    have e: "expo x = bitlen n - 1" using True by (simp add: expo_def n_def)
    have "pow2 (expo x) = of_int (2 ^ nat (bitlen n - 1))"
      using bl by (simp add: e pow2_def)
    also have "\<dots> \<le> of_int n" using b(1) by (simp only: of_int_le_iff)
    also have "\<dots> \<le> x" unfolding n_def by linarith
    finally have l: "pow2 (expo x) \<le> x" .
    have "n + 1 \<le> 2 ^ nat (bitlen n)" using b(2) by simp
    then have "(of_int (n + 1) :: rat) \<le> of_int (2 ^ nat (bitlen n))"
      by (simp only: of_int_le_iff)
    moreover have "x < of_int (n + 1)" unfolding n_def by linarith
    moreover have "pow2 (expo x + 1) = of_int (2 ^ nat (bitlen n))"
      using bl by (simp add: e pow2_def)
    ultimately have "x < pow2 (expo x + 1)" by simp
    with l show ?thesis by simp
  next
    case False
    define t where "t = 1 / x"
    define d where "d = \<lceil>t\<rceil> - 1"
    have t: "1 < t" using False assms by (simp add: t_def)
    have d: "0 < d" using t by (simp add: d_def)
    from bitlen_bounds[OF d] have b: "2 ^ nat (bitlen d - 1) \<le> d" "d < 2 ^ nat (bitlen d)"
      by auto
    have bl: "1 \<le> bitlen d" using d bitlen_eq_zero_iff[of d] bitlen_nonneg[of d] by linarith
    have e: "expo x = - bitlen d" using False by (simp add: expo_def d_def t_def)
    have dt: "of_int d < t" "t \<le> of_int d + 1"
      unfolding d_def by linarith+
    have "(2 :: rat) ^ nat (bitlen d - 1) \<le> of_int d"
      using b(1) of_int_le_iff[of "2 ^ nat (bitlen d - 1)" d, where ?'a = rat] by simp
    then have lo: "2 ^ nat (bitlen d - 1) < t" using dt(1) by linarith
    have "d + 1 \<le> 2 ^ nat (bitlen d)" using b(2) by simp
    then have "(of_int d + 1 :: rat) \<le> 2 ^ nat (bitlen d)"
      using of_int_le_iff[of "d + 1" "2 ^ nat (bitlen d)", where ?'a = rat] by simp
    then have hi: "t \<le> 2 ^ nat (bitlen d)" using dt(2) by linarith
    have x: "x = 1 / t" using assms by (simp add: t_def)
    have p1: "pow2 (expo x) = 1 / 2 ^ nat (bitlen d)"
      using bl by (simp add: e pow2_def)
    have p2: "pow2 (expo x + 1) = 1 / 2 ^ nat (bitlen d - 1)"
      using bl by (auto simp add: e pow2_def nat_diff_distrib intro: arg_cong)
    have "1 / 2 ^ nat (bitlen d) \<le> 1 / t"
      using hi t by (simp add: frac_le)
    moreover have "1 / t < 1 / 2 ^ nat (bitlen d - 1)"
      using lo by (simp add: frac_less2)
    ultimately show ?thesis using p1 p2 x by simp
  qed
  then show "pow2 (expo x) \<le> x" and "x < pow2 (expo x + 1)" by simp_all
qed

lemma expo_unique:
  assumes "0 < x" "pow2 e \<le> x" "x < pow2 (e + 1)"
  shows "expo x = e"
proof (rule ccontr)
  assume ne: "expo x \<noteq> e"
  show False
  proof (cases "expo x < e")
    case True
    then have "pow2 (expo x + 1) \<le> pow2 e" by (intro pow2_mono) simp
    with expo_bounds(2)[OF assms(1)] assms(2) show False by simp
  next
    case False
    with ne have "e + 1 \<le> expo x" by simp
    then have "pow2 (e + 1) \<le> pow2 (expo x)" by (rule pow2_mono)
    with expo_bounds(1)[OF assms(1)] assms(3) show False by simp
  qed
qed

lemma expo_mono:
  assumes "0 < x" "x \<le> y"
  shows "expo x \<le> expo y"
proof (rule ccontr)
  assume "\<not> expo x \<le> expo y"
  then have "expo y + 1 \<le> expo x" by simp
  then have "pow2 (expo y + 1) \<le> pow2 (expo x)" by (rule pow2_mono)
  moreover have "0 < y" using assms by simp
  ultimately show False
    using expo_bounds(1)[OF assms(1)] expo_bounds(2)[of y] assms(2) by simp
qed

subsection \<open>Rounding is monotone and exact on representable numbers\<close>


lemma rhe_cases: "round_half_even y = \<lfloor>y\<rfloor> \<or> round_half_even y = \<lfloor>y\<rfloor> + 1"
  by (simp add: round_half_even_def Let_def)

lemma rhe_of_int: "round_half_even (of_int n) = n"
  by (simp add: round_half_even_def Let_def)

lemma rhe_eqI:
  assumes "\<bar>y - of_int n\<bar> < 1 / 2"
  shows "round_half_even y = n"
proof (cases "of_int n \<le> y")
  case True
  then have f: "\<lfloor>y\<rfloor> = n" using assms by (intro floor_unique) auto
  then show ?thesis using assms True by (simp add: round_half_even_def Let_def)
next
  case False
  then have f: "\<lfloor>y\<rfloor> = n - 1" using assms by (intro floor_unique) auto
  then show ?thesis using assms False by (auto simp add: round_half_even_def Let_def)
qed

lemma rhe_mono:
  assumes "a \<le> b"
  shows "round_half_even a \<le> round_half_even b"
proof (cases "\<lfloor>a\<rfloor> = \<lfloor>b\<rfloor>")
  case True
  then show ?thesis using assms by (auto simp add: round_half_even_def Let_def)
next
  case False
  moreover have "\<lfloor>a\<rfloor> \<le> \<lfloor>b\<rfloor>" using assms by (rule floor_mono)
  ultimately have "\<lfloor>a\<rfloor> + 1 \<le> \<lfloor>b\<rfloor>" by simp
  then show ?thesis using rhe_cases[of a] rhe_cases[of b] by auto
qed

lemma rhe_nonneg: "0 \<le> y \<Longrightarrow> 0 \<le> round_half_even y"
  using rhe_mono[of 0 y] rhe_of_int[of 0] by simp

lemma quantum_pos: "0 < quantum x"
  by (simp add: quantum_def pow2_pos)

lemma fl_pos_eq: "0 < x \<Longrightarrow> fl x = of_int (round_half_even (x / quantum x)) * quantum x"
  by (simp add: fl_def)

lemma fl_nonneg: "0 \<le> x \<Longrightarrow> 0 \<le> fl x"
proof (cases "x = 0")
  case True
  then show ?thesis by (simp add: fl_def)
next
  case False
  assume "0 \<le> x"
  with False have x: "0 < x" by simp
  have "0 \<le> x / quantum x" using x quantum_pos[of x] by simp
  then have "0 \<le> round_half_even (x / quantum x)" by (rule rhe_nonneg)
  then show ?thesis using quantum_pos[of x] by (simp add: fl_pos_eq[OF x])
qed

lemma fl_exact:
  assumes "0 < x" "x / quantum x = of_int n"
  shows "fl x = x"
proof -
  have "fl x = of_int n * quantum x"
    by (simp add: fl_pos_eq[OF assms(1)] assms(2) rhe_of_int)
  also have "\<dots> = x" using assms(2) quantum_pos[of x] by (simp add: field_simps)
  finally show ?thesis .
qed

lemma quantum_eq: "0 < x \<Longrightarrow> quantum x = pow2 (max (expo x) (- 1022) - 52)"
  by (simp add: quantum_def)

lemma pow2_shift53: "pow2 (E - 52) * 2 ^ 53 = pow2 (E + 1)"
proof -
  have "pow2 (E - 52 + 53) = pow2 (E - 52) * pow2 53" by (rule pow2_add)
  moreover have "E - 52 + 53 = E + 1" by simp
  moreover have "pow2 53 = 2 ^ 53" by (simp add: pow2_def)
  ultimately show ?thesis by (simp only:)
qed

lemma pow2_shift52: "pow2 (E - 52) * 2 ^ 52 = pow2 E"
proof -
  have "pow2 (E - 52 + 52) = pow2 (E - 52) * pow2 52" by (rule pow2_add)
  moreover have "E - 52 + 52 = E" by simp
  moreover have "pow2 52 = 2 ^ 52" by (simp add: pow2_def)
  ultimately show ?thesis by (simp only:)
qed

lemma fl_upper:
  assumes "0 < x"
  shows "fl x \<le> pow2 (max (expo x) (- 1022) + 1)"
proof -
  define E where "E = max (expo x) (- 1022)"
  define q where "q = pow2 (E - 52)"
  have q: "quantum x = q" by (simp add: quantum_eq[OF assms] E_def q_def)
  have qpos: "0 < q" by (simp add: q_def pow2_pos)
  have "x < pow2 (expo x + 1)" by (rule expo_bounds(2)[OF assms])
  also have "\<dots> \<le> pow2 (E + 1)" by (rule pow2_mono) (simp add: E_def)
  also have "\<dots> = q * 2 ^ 53" by (simp only: q_def pow2_shift53)
  finally have "x / q \<le> of_int (2 ^ 53)"
    using qpos by (simp add: field_simps)
  then have "round_half_even (x / q) \<le> 2 ^ 53"
    using rhe_mono[of "x / q" "of_int (2 ^ 53)"] by (simp only: rhe_of_int)
  then have "(of_int (round_half_even (x / q)) :: rat) \<le> of_int (2 ^ 53)"
    by (simp only: of_int_le_iff)
  then have "of_int (round_half_even (x / q)) * q \<le> of_int (2 ^ 53) * q"
    using qpos by (simp only: mult_le_cancel_right_pos)
  also have "of_int (2 ^ 53) * q = pow2 (E + 1)"
    using pow2_shift53[of E] by (simp add: q_def mult.commute)
  finally show ?thesis by (simp only: fl_pos_eq[OF assms] q E_def)
qed

lemma fl_lower:
  assumes "0 < x" "- 1022 \<le> expo x"
  shows "pow2 (expo x) \<le> fl x"
proof -
  define E where "E = expo x"
  define q where "q = pow2 (E - 52)"
  have q: "quantum x = q"
    using assms(2) by (simp add: quantum_eq[OF assms(1)] E_def q_def max_def)
  have qpos: "0 < q" by (simp add: q_def pow2_pos)
  have pE: "of_int (2 ^ 52) * q = pow2 E"
    using pow2_shift52[of E] by (simp add: q_def mult.commute)
  have "pow2 E \<le> x" unfolding E_def by (rule expo_bounds(1)[OF assms(1)])
  then have "of_int (2 ^ 52) \<le> x / q"
    using qpos pE by (simp add: field_simps)
  then have "2 ^ 52 \<le> round_half_even (x / q)"
    using rhe_mono[of "of_int (2 ^ 52)" "x / q"] by (simp only: rhe_of_int)
  then have "(of_int (2 ^ 52) :: rat) \<le> of_int (round_half_even (x / q))"
    by (simp only: of_int_le_iff)
  then have "of_int (2 ^ 52) * q \<le> of_int (round_half_even (x / q)) * q"
    using qpos by (simp only: mult_le_cancel_right_pos)
  then show ?thesis by (simp only: fl_pos_eq[OF assms(1)] q pE E_def)
qed

lemma fl_mono:
  assumes "0 \<le> x" "x \<le> y"
  shows "fl x \<le> fl y"
proof (cases "x = 0")
  case True
  then show ?thesis using assms fl_nonneg[of y] by (simp add: fl_def)
next
  case False
  with assms have x: "0 < x" and y: "0 < y" by simp_all
  define Ex where "Ex = max (expo x) (- 1022)"
  define Ey where "Ey = max (expo y) (- 1022)"
  have le: "Ex \<le> Ey" using expo_mono[OF x assms(2)] by (simp add: Ex_def Ey_def)
  show ?thesis
  proof (cases "Ex = Ey")
    case True
    then have q: "quantum x = quantum y" by (simp add: quantum_eq x y Ex_def Ey_def)
    have "x / quantum y \<le> y / quantum y"
      using assms(2) quantum_pos[of y] by (simp add: divide_right_mono)
    then have "round_half_even (x / quantum y) \<le> round_half_even (y / quantum y)"
      by (rule rhe_mono)
    then have "(of_int (round_half_even (x / quantum y)) :: rat)
                 \<le> of_int (round_half_even (y / quantum y))"
      by (simp only: of_int_le_iff)
    then show ?thesis
      using quantum_pos[of y] by (simp add: fl_pos_eq[OF x] fl_pos_eq[OF y] q)
  next
    case False
    with le have lt: "Ex + 1 \<le> Ey" by simp
    then have ey: "expo y = Ey" "- 1022 \<le> expo y" by (auto simp add: Ex_def Ey_def)
    have "fl x \<le> pow2 (Ex + 1)" unfolding Ex_def by (rule fl_upper[OF x])
    also have "\<dots> \<le> pow2 Ey" using lt by (rule pow2_mono)
    also have "\<dots> \<le> fl y" using fl_lower[OF y ey(2)] by (simp add: ey(1))
    finally show ?thesis .
  qed
qed

lemma fl_int:
  assumes "0 \<le> N" "N < 2 ^ 53"
  shows "fl (of_int N) = of_int N"
proof (cases "N = 0")
  case True
  then show ?thesis by (simp add: fl_def)
next
  case False
  with assms have x: "(0 :: rat) < of_int N" by simp
  define E where "E = max (expo (of_int N)) (- 1022)"
  have "pow2 (expo (of_int N)) \<le> of_int N" by (rule expo_bounds(1)[OF x])
  also have "(of_int N :: rat) < of_int (2 ^ 53)" using assms(2) by (simp only: of_int_less_iff)
  also have "(of_int (2 ^ 53) :: rat) = pow2 53" by (simp add: pow2_def)
  finally have "expo (of_int N) < 53"
    using pow2_mono[of 53 "expo (of_int N)"] by (cases "expo (of_int N) < 53") auto
  then have E: "E \<le> 52" "- 1022 \<le> E" by (simp_all add: E_def)
  have q: "quantum (of_int N) = 1 / 2 ^ nat (52 - E)"
    using E by (simp add: quantum_eq[OF x] E_def[symmetric] pow2_def)
  have "of_int N / quantum (of_int N) = (of_int (N * 2 ^ nat (52 - E)) :: rat)"
    by (simp add: q)
  then show ?thesis by (rule fl_exact[OF x])
qed

lemma fl_le_int: "0 \<le> x \<Longrightarrow> x \<le> of_int N \<Longrightarrow> N < 2 ^ 53 \<Longrightarrow> fl x \<le> of_int N"
  using fl_mono[of x "of_int N"] fl_int[of N] by (cases "0 \<le> N") auto

lemma fl_ge_int: "0 \<le> N \<Longrightarrow> of_int N \<le> x \<Longrightarrow> N < 2 ^ 53 \<Longrightarrow> of_int N \<le> fl x"
  using fl_mono[of "of_int N" x] fl_int[of N] by auto

lemma fl_eqI:
  assumes "0 < x" "pow2 e \<le> x" "x < pow2 (e + 1)" "- 1022 \<le> e"
    and "\<bar>x / pow2 (e - 52) - of_int n\<bar> < 1 / 2"
  shows "fl x = of_int n * pow2 (e - 52)"
proof -
  have "expo x = e" by (rule expo_unique[OF assms(1-3)])
  then have q: "quantum x = pow2 (e - 52)" using assms(4) by (simp add: quantum_eq[OF assms(1)] max_def)
  show ?thesis by (simp add: fl_pos_eq[OF assms(1)] q rhe_eqI[OF assms(5)])
qed

lemma house_edge_value: "house_edge = 4278419646001971 / 4503599627370496"
proof -
  have "fl (95 / 100) = of_int 8556839292003942 * pow2 (- 1 - 52)"
    by (rule fl_eqI) (simp_all add: pow2_def)
  then show ?thesis by (simp add: house_edge_def pow2_def)
qed

subsection \<open>The multiplier and the payout in range\<close>


lemma finite_double_le: "0 \<le> r \<Longrightarrow> r \<le> of_int N \<Longrightarrow> N < 2 ^ 53 \<Longrightarrow> finite_double r"
proof -
  assume a: "0 \<le> r" "r \<le> of_int N" "N < 2 ^ 53"
  have "(of_int N :: rat) < of_int (2 ^ 53)" using a(3) by (simp only: of_int_less_iff)
  also have "\<dots> < 2 ^ 1024" by simp
  finally show ?thesis using a by (simp add: finite_double_def)
qed

lemma float_of_int_small:
  assumes "0 \<le> n" "n < 2 ^ 53"
  shows "float_of_int n = Inr (of_int n)"
proof -
  have "finite_double (of_int n)"
    using assms by (intro finite_double_le[of _ n]) simp_all
  then show ?thesis by (simp add: float_of_int_def fl_int[OF assms])
qed

lemma fl_nine_eighths: "fl (9 / 8) = 9 / 8"
proof -
  have "fl (9 / 8) = of_int 5066549580791808 * pow2 (0 - 52)"
    by (rule fl_eqI) (simp_all add: pow2_def)
  then show ?thesis by (simp add: pow2_def)
qed

lemma base_ok:
  assumes "1 \<le> mc" "mc \<le> 8"
  shows "py_truediv TOTAL_TILES (TOTAL_TILES - mc) = Inr (fl (9 / of_int (9 - mc)))"
    and "9 / 8 \<le> fl (9 / of_int (9 - mc))"
    and "fl (9 / of_int (9 - mc)) \<le> 9"
proof -
  define d :: rat where "d = of_int (9 - mc)"
  have d: "1 \<le> d" "d \<le> 8" using assms by (simp_all add: d_def)
  have q: "9 / 8 \<le> 9 / d" "9 / d \<le> 9" using d by (simp_all add: field_simps)
  have lo: "9 / 8 \<le> fl (9 / d)"
    using fl_mono[of "9 / 8" "9 / d"] q(1) by (simp add: fl_nine_eighths)
  have hi: "fl (9 / d) \<le> 9"
    using fl_le_int[of "9 / d" 9] q d by simp
  have "finite_double (fl (9 / d))"
    using lo hi by (intro finite_double_le[of _ 9]) simp_all
  then show "py_truediv TOTAL_TILES (TOTAL_TILES - mc) = Inr (fl (9 / of_int (9 - mc)))"
    using assms by (simp add: py_truediv_def TOTAL_TILES_def GRID_WIDTH_def GRID_HEIGHT_def d_def)
  show "9 / 8 \<le> fl (9 / of_int (9 - mc))" using lo by (simp add: d_def)
  show "fl (9 / of_int (9 - mc)) \<le> 9" using hi by (simp add: d_def)
qed

lemma pow_ok:
  assumes "9 / 8 \<le> x" "x \<le> 9" "1 \<le> k" "k \<le> 8"
  shows "py_float_pow x k = Inr (fl (x ^ nat k))"
    and "9 / 8 \<le> fl (x ^ nat k)"
    and "fl (x ^ nat k) \<le> 43046721"
proof -
  have x1: "1 \<le> x" "0 \<le> x" using assms(1) by simp_all
  have kf: "float_of_int k = Inr (of_int k)"
    using assms by (intro float_of_int_small) simp_all
  have "x ^ 1 \<le> x ^ nat k" using x1 assms(3) by (intro power_increasing) simp_all
  then have lo1: "9 / 8 \<le> x ^ nat k" using assms(1) by simp
  have "x ^ nat k \<le> 9 ^ nat k" using x1 assms(2) by (intro power_mono) simp_all
  also have "(9 :: rat) ^ nat k \<le> 9 ^ 8" using assms by (intro power_increasing) simp_all
  finally have hi1: "x ^ nat k \<le> of_int 43046721" by simp
  show lo: "9 / 8 \<le> fl (x ^ nat k)"
    using fl_mono[of "9 / 8" "x ^ nat k"] lo1 by (simp add: fl_nine_eighths)
  have "fl (x ^ nat k) \<le> of_int 43046721"
    using lo1 by (intro fl_le_int[OF _ hi1]) simp_all
  then show hi: "fl (x ^ nat k) \<le> 43046721" by simp
  have "finite_double (fl (x ^ nat k))"
    using lo hi by (intro finite_double_le[of _ 43046721]) simp_all
  then show "py_float_pow x k = Inr (fl (x ^ nat k))"
    using assms(3) by (simp add: py_float_pow_def kf)
qed

lemma house_edge_bounds: "8 / 9 \<le> house_edge" "house_edge \<le> 1"
  by (simp_all add: house_edge_value)

lemma edge_ok:
  assumes "9 / 8 \<le> p" "p \<le> 43046721"
  shows "1 \<le> py_float_mul p house_edge"
proof -
  have "1 = 9 / 8 * (8 / 9 :: rat)" by simp
  also have "\<dots> \<le> p * house_edge"
    using assms(1) house_edge_bounds(1) by (intro mult_mono) simp_all
  finally have a: "of_int 1 \<le> p * house_edge" by simp
  have "p * house_edge \<le> 43046721 * 1"
    using assms house_edge_bounds by (intro mult_mono) simp_all
  then have "of_int 1 \<le> fl (p * house_edge)"
    using a by (intro fl_ge_int) simp_all
  then show ?thesis by (simp add: py_float_mul_def)
qed

lemma multiplier_ok:
  assumes "1 \<le> mc" "mc \<le> 8" "1 \<le> k" "k \<le> 8"
  shows "calculate_multiplier st mc k = Inr (multiplier_formula mc k)"
    and "1 \<le> multiplier_formula mc k"
    and "multiplier_formula mc k \<le> 1000"
proof -
  note b = base_ok[OF assms(1,2)]
  note p = pow_ok[OF b(2,3) assms(3,4)]
  have "k \<noteq> 0" using assms(3) by simp
  then show "calculate_multiplier st mc k = Inr (multiplier_formula mc k)"
    by (simp only: calculate_multiplier_def b(1) p(1) multiplier_formula_def py_float_mul_def
        house_edge_def max_multiplier_def sum.case if_False)
  show "1 \<le> multiplier_formula mc k"
    using edge_ok[OF p(2,3)]
    by (simp add: multiplier_formula_def py_float_mul_def house_edge_def)
  show "multiplier_formula mc k \<le> 1000" by (simp add: multiplier_formula_def)
qed

lemma multiplier_mono:
  assumes "1 \<le> mc" "mc \<le> 8" "2 \<le> k" "k \<le> 8"
  shows "multiplier_formula mc (k - 1) \<le> multiplier_formula mc k"
proof -
  define x where "x = fl (9 / of_int (9 - mc))"
  note b = base_ok[OF assms(1,2)]
  have x1: "1 \<le> x" "0 \<le> x" using b(2) by (simp_all add: x_def)
  have "x ^ nat (k - 1) \<le> x ^ nat k"
    using x1 assms(3) by (intro power_increasing) simp_all
  moreover have "0 \<le> x ^ nat (k - 1)" using x1 by simp
  ultimately have f: "fl (x ^ nat (k - 1)) \<le> fl (x ^ nat k)" by (rule fl_mono[rotated])
  have h: "0 \<le> fl (95 / 100)" by (rule fl_nonneg) simp
  have "0 \<le> fl (x ^ nat (k - 1))" using x1 by (intro fl_nonneg) simp
  then have nn: "0 \<le> fl (x ^ nat (k - 1)) * fl (95 / 100)"
    using h by (rule mult_nonneg_nonneg)
  have "fl (x ^ nat (k - 1)) * fl (95 / 100) \<le> fl (x ^ nat k) * fl (95 / 100)"
    using f h by (rule mult_right_mono)
  with nn have "fl (fl (x ^ nat (k - 1)) * fl (95 / 100)) \<le> fl (fl (x ^ nat k) * fl (95 / 100))"
    by (rule fl_mono)
  then have "min (fl (fl (x ^ nat (k - 1)) * fl (95 / 100))) 1000
               \<le> min (fl (fl (x ^ nat k) * fl (95 / 100))) 1000"
    by (simp only: min_def split: if_splits) auto
  then show ?thesis by (simp only: multiplier_formula_def x_def)
qed

lemma payout_ok:
  assumes "0 \<le> b" "b \<le> 500000" "0 \<le> m" "m \<le> 1000"
  shows "py_int_times_float b m = Inr \<lfloor>fl (of_int b * m)\<rfloor>"
    and "\<lfloor>fl (of_int b * m)\<rfloor> \<le> b * 1000"
    and "1 \<le> m \<Longrightarrow> b \<le> \<lfloor>fl (of_int b * m)\<rfloor>"
proof -
  have bf: "float_of_int b = Inr (of_int b)"
    using assms by (intro float_of_int_small) simp_all
  have nn: "0 \<le> of_int b * m" using assms by simp
  have "of_int b * m \<le> of_int b * 1000" using assms by (intro mult_left_mono) simp_all
  then have le: "of_int b * m \<le> of_int (b * 1000)" by simp
  have hi: "fl (of_int b * m) \<le> of_int (b * 1000)"
    using assms by (intro fl_le_int[OF nn le]) simp
  have lo: "0 \<le> fl (of_int b * m)" using nn by (rule fl_nonneg)
  have "finite_double (fl (of_int b * m))"
    using assms by (intro finite_double_le[OF lo hi]) simp
  then show "py_int_times_float b m = Inr \<lfloor>fl (of_int b * m)\<rfloor>"
    using lo by (simp add: py_int_times_float_def bf py_float_mul_def py_int_def)
  show "\<lfloor>fl (of_int b * m)\<rfloor> \<le> b * 1000"
    using hi by (simp add: floor_le_iff)
  show "b \<le> \<lfloor>fl (of_int b * m)\<rfloor>" if "1 \<le> m"
  proof -
    have "of_int b * 1 \<le> of_int b * m" using assms that by (intro mult_left_mono) simp_all
    then have "of_int b \<le> fl (of_int b * m)"
      using assms by (intro fl_ge_int) simp_all
    then show ?thesis by (simp add: le_floor_iff)
  qed
qed

subsection \<open>Ties\<close>


lemma rhe_tieI:
  assumes "\<bar>y - of_int n\<bar> = 1 / 2" "even n"
  shows "round_half_even y = n"
proof (cases "of_int n \<le> y")
  case True
  then have y: "y = of_int n + 1 / 2" using assms(1) by simp
  have f: "\<lfloor>y\<rfloor> = n" unfolding y by (intro floor_unique) auto
  show ?thesis using assms(2) by (simp add: round_half_even_def Let_def f) (simp add: y)
next
  case False
  then have y: "y = of_int (n - 1) + 1 / 2" using assms(1) by auto
  have f: "\<lfloor>y\<rfloor> = n - 1" unfolding y by (intro floor_unique) auto
  show ?thesis using assms(2) by (simp add: round_half_even_def Let_def f) (simp add: y)
qed

lemma fl_tieI:
  assumes "0 < x" "pow2 e \<le> x" "x < pow2 (e + 1)" "- 1022 \<le> e"
    and "\<bar>x / pow2 (e - 52) - of_int n\<bar> = 1 / 2" "even n"
  shows "fl x = of_int n * pow2 (e - 52)"
proof -
  have "expo x = e" by (rule expo_unique[OF assms(1-3)])
  then have q: "quantum x = pow2 (e - 52)" using assms(4) by (simp add: quantum_eq[OF assms(1)] max_def)
  show ?thesis by (simp add: fl_pos_eq[OF assms(1)] q rhe_tieI[OF assms(5,6)])
qed

subsection \<open>Rounded values used in the examples\<close>

lemma fl_3_2: "fl (3 / 2) = 3 / 2"
proof -
  have "fl (3 / 2) = of_int 6755399441055744 * pow2 (0 - 52)"
    by (rule fl_eqI) (simp_all add: pow2_def)
  then show ?thesis by (simp add: pow2_def)
qed

lemma fl_9_4: "fl (9 / 4) = 9 / 4"
proof -
  have "fl (9 / 4) = of_int 5066549580791808 * pow2 (1 - 52)"
    by (rule fl_eqI) (simp_all add: pow2_def)
  then show ?thesis by (simp add: pow2_def)
qed


lemma fl_m31: "fl (12835258938005913 / 9007199254740992) = 1604407367250739 / 1125899906842624"
proof -
  have "fl (12835258938005913 / 9007199254740992) = of_int 6417629469002956 * pow2 (0 - 52)"
    by (rule fl_tieI) (simp_all add: pow2_def)
  then show ?thesis by (simp add: pow2_def)
qed

lemma fl_m32: "fl (38505776814017739 / 18014398509481984) = 4813222101752217 / 2251799813685248"
proof -
  have "fl (38505776814017739 / 18014398509481984) = of_int 4813222101752217 * pow2 (1 - 52)"
    by (rule fl_eqI) (simp_all add: pow2_def)
  then show ?thesis by (simp add: pow2_def)
qed


lemma fl_p142: "fl (40110184181268475 / 281474976710656) = 5013773022658559 / 35184372088832"
proof -
  have "fl (40110184181268475 / 281474976710656) = of_int 5013773022658559 * pow2 (7 - 52)"
    by (rule fl_eqI) (simp_all add: pow2_def)
  then show ?thesis by (simp add: pow2_def)
qed

lemma fl_p213: "fl (120330552543805425 / 562949953421312) = 7520659533987839 / 35184372088832"
proof -
  have "fl (120330552543805425 / 562949953421312) = of_int 7520659533987839 * pow2 (7 - 52)"
    by (rule fl_eqI) (simp_all add: pow2_def)
  then show ?thesis by (simp add: pow2_def)
qed


lemma fl_1425: "fl (57 / 40) = 6417629469002957 / 4503599627370496"
proof -
  have "fl (57 / 40) = of_int 6417629469002957 * pow2 (0 - 52)"
    by (rule fl_eqI) (simp_all add: pow2_def)
  then show ?thesis by (simp add: pow2_def)
qed

lemma fl_21375: "fl (171 / 80) = 2406611050876109 / 1125899906842624"
proof -
  have "fl (171 / 80) = of_int 4813222101752218 * pow2 (1 - 52)"
    by (rule fl_eqI) (simp_all add: pow2_def)
  then show ?thesis by (simp add: pow2_def)
qed

lemma fl_tenth: "fl (1 / 10) = 3602879701896397 / 36028797018963968"
proof -
  have "fl (1 / 10) = of_int 7205759403792794 * pow2 (- 4 - 52)"
    by (rule fl_eqI) (simp_all add: pow2_def)
  then show ?thesis by (simp add: pow2_def)
qed

lemma fl_third: "fl (1 / 3) = 6004799503160661 / 18014398509481984"
proof -
  have "fl (1 / 3) = of_int 6004799503160661 * pow2 (- 2 - 52)"
    by (rule fl_eqI) (simp_all add: pow2_def)
  then show ?thesis by (simp add: pow2_def)
qed

lemma fl_9_8_cubed: "fl (729 / 512) = 729 / 512"
proof -
  have "fl (729 / 512) = of_int 6412351813189632 * pow2 (0 - 52)"
    by (rule fl_eqI) (simp_all add: pow2_def)
  then show ?thesis by (simp add: pow2_def)
qed

lemma fl_m13: "fl (3118967921935436859 / 2305843009213693952) = 3045867111265075 / 2251799813685248"
proof -
  have "fl (3118967921935436859 / 2305843009213693952) = of_int 6091734222530150 * pow2 (0 - 52)"
    by (rule fl_eqI) (simp_all add: pow2_def)
  then show ?thesis by (simp add: pow2_def)
qed

lemma fl_p13851: "fl (15229335556325375 / 1099511627776) = 13851"
proof -
  have "fl (15229335556325375 / 1099511627776) = of_int 7614667778162688 * pow2 (13 - 52)"
    by (rule fl_tieI) (simp_all add: pow2_def)
  then show ?thesis by (simp add: pow2_def)
qed













section \<open>The transitions, case by case\<close>


lemma spec_multiplier_formula:
  "k \<noteq> 0 \<Longrightarrow> spec_multiplier TOTAL_TILES mc k = multiplier_formula mc k"
  by (simp add: spec_multiplier_def multiplier_formula_def TOTAL_TILES_def GRID_WIDTH_def GRID_HEIGHT_def)

lemma trace_emit [simp]: "trace (emit e s) = trace s @ [e]"
  and cash_emit [simp]: "cash (emit e s) = cash s"
  and active_emit [simp]: "active_games (emit e s) = active_games s"
  by (simp_all add: emit_def)

lemma trace_add_cash [simp]: "trace (add_cash u a k s) = trace s @ [AddCash u a k]"
  and cash_add_cash [simp]: "cash (add_cash u a k s) = (cash s)(u := cash s u + a)"
  and active_add_cash [simp]: "active_games (add_cash u a k s) = active_games s"
  by (simp_all add: add_cash_def)

lemma trace_pop [simp]: "trace (pop_active_game u s) = trace s"
  and cash_pop [simp]: "cash (pop_active_game u s) = cash s"
  and active_pop [simp]: "active_games (pop_active_game u s) = active_games s - {u}"
  by (auto simp add: pop_active_game_def)

lemma trace_record [simp]:
  "trace (record_mines_stats u b w m r s) = trace s @ [RecordStats u b w m r]"
  and cash_record [simp]: "cash (record_mines_stats u b w m r s) = cash s"
  and active_record [simp]: "active_games (record_mines_stats u b w m r s) = active_games s"
  by (simp_all add: record_mines_stats_def)

lemma trace_update_pos [simp]:
  "0 < a \<Longrightarrow> trace (update_user_balance u a s) = trace s @ [AddCash u a ''mines_win'']"
  and cash_update_pos [simp]:
  "0 < a \<Longrightarrow> cash (update_user_balance u a s) = (cash s)(u := cash s u + a)"
  and active_update [simp]: "active_games (update_user_balance u a s) = active_games s"
  by (simp_all add: update_user_balance_def)

lemma credited_append [simp]: "credited (xs @ ys) = credited xs @ credited ys"
  by (induction xs rule: credited.induct) simp_all

lemma recorded_append [simp]: "recorded (xs @ ys) = recorded xs @ recorded ys"
  by (induction xs rule: recorded.induct) simp_all

lemma click_game_over: "game_over v \<Longrightarrow> process_tile_click x y (v, s) = (v, s)"
  by (simp add: process_tile_click_def)



lemma click_mine:
  "\<not> game_over v \<Longrightarrow> tile_at (tiles v) x y = Some t \<Longrightarrow> \<not> revealed t \<Longrightarrow> is_mine t \<Longrightarrow>
   process_tile_click x y (v, s) =
     (v\<lparr>tiles := reveal_mines (tile_update x y reveal (tiles v)), game_over := True, won := False\<rparr>,
      pop_active_game (user_id v)
        (record_mines_stats (user_id v) (bet v) 0 (mines_count v) (tiles_revealed v)
          (emit SetGameOver s)))"
  by (simp add: process_tile_click_def Let_def)

lemma click_safe:
  "\<not> game_over v \<Longrightarrow> tile_at (tiles v) x y = Some t \<Longrightarrow> \<not> revealed t \<Longrightarrow> \<not> is_mine t \<Longrightarrow>
   calculate_multiplier (safe_tiles v) (mines_count v) (tiles_revealed v + 1) = Inr m \<Longrightarrow>
   py_int_times_float (bet v) m = Inr p \<Longrightarrow>
   process_tile_click x y (v, s) =
     (let v3 = v\<lparr>tiles := tile_update x y reveal (tiles v),
                  tiles_revealed := tiles_revealed v + 1,
                  current_multiplier := m, potential_win := p\<rparr>
      in if tiles_revealed v + 1 = safe_tiles v then handle_victory (v3, s) else (v3, s))"
  by (simp add: process_tile_click_def Let_def)


lemma cashout_noop:
  "game_over v \<or> tiles_revealed v = 0 \<Longrightarrow> process_cashout (v, s) = (v, s)"
  by (auto simp add: process_cashout_def)

lemma cashout_eq:
  "\<not> game_over v \<Longrightarrow> tiles_revealed v \<noteq> 0 \<Longrightarrow> 0 < potential_win v \<Longrightarrow>
   process_cashout (v, s) =
     (v\<lparr>game_over := True, won := True, tiles := reveal_mines (tiles v)\<rparr>,
      pop_active_game (user_id v)
        (emit SetGameOver
          (record_mines_stats (user_id v) (bet v) (potential_win v) (mines_count v) (tiles_revealed v)
            (add_cash (user_id v) (potential_win v) ''mines_win'' s))))"
  by (simp add: process_cashout_def Let_def update_user_balance_def)

lemma exit_game_over:
  "game_over v \<Longrightarrow>
   exit_callback (v, s) =
     (v\<lparr>tiles := reveal_all (tiles v)\<rparr>, pop_active_game (user_id v) (emit SetGameOver s))"
  by (simp add: exit_callback_def Let_def)

lemma exit_refund:
  "\<not> game_over v \<Longrightarrow> tiles_revealed v = 0 \<Longrightarrow> 0 < bet v \<Longrightarrow>
   exit_callback (v, s) =
     (v\<lparr>tiles := reveal_all (tiles v), game_over := True\<rparr>,
      pop_active_game (user_id v)
        (emit SetGameOver (add_cash (user_id v) (bet v) ''mines_win'' s)))"
  by (simp add: exit_callback_def Let_def update_user_balance_def)

lemma exit_forfeit:
  "\<not> game_over v \<Longrightarrow> tiles_revealed v \<noteq> 0 \<Longrightarrow>
   exit_callback (v, s) =
     (v\<lparr>tiles := reveal_all (tiles v), game_over := True\<rparr>,
      pop_active_game (user_id v) (emit SetGameOver s))"
  by (simp add: exit_callback_def Let_def)

lemma timeout_game_over: "game_over v \<Longrightarrow> on_timeout (v, s) = (v, s)"
  by (simp add: on_timeout_def)



section \<open>Invariants of a session\<close>






lemma view_ok_tiles [simp]: "view_ok (v\<lparr>tiles := ts\<rparr>) = view_ok v"
  by (auto simp add: view_ok_def)

lemma view_ok_won [simp]: "view_ok (v\<lparr>won := w\<rparr>) = view_ok v"
  by (auto simp add: view_ok_def)

lemma view_ok_over: "view_ok v \<Longrightarrow> view_ok (v\<lparr>game_over := True\<rparr>)"
  by (auto simp add: view_ok_def)















lemma valid_start_bounds:
  "valid_start b mc \<Longrightarrow> 10 \<le> b \<and> b \<le> 500000 \<and> 1 \<le> mc \<and> mc \<le> 8"
  by (simp add: valid_start_def MIN_BET_def MAX_BET_def MIN_MINES_def MAX_MINES_def
      TOTAL_TILES_def GRID_WIDTH_def GRID_HEIGHT_def)

section \<open>Worked sessions\<close>


lemma fl_edge: "fl (19 / 20) = 4278419646001971 / 4503599627370496"
  using house_edge_value by (simp add: house_edge_def)

lemma formula_3_1: "multiplier_formula 3 1 = 1604407367250739 / 1125899906842624"
  by (simp add: multiplier_formula_def fl_3_2 fl_edge fl_m31)

lemma formula_3_2: "multiplier_formula 3 2 = 4813222101752217 / 2251799813685248"
  by (simp add: multiplier_formula_def fl_3_2 fl_9_4 fl_edge fl_m32 power2_eq_square)


lemma cm_3_1: "calculate_multiplier st 3 1 = Inr (1604407367250739 / 1125899906842624)"
  using multiplier_ok(1)[of 3 1 st] by (simp add: formula_3_1)

lemma cm_3_2: "calculate_multiplier st 3 2 = Inr (4813222101752217 / 2251799813685248)"
  using multiplier_ok(1)[of 3 2 st] by (simp add: formula_3_2)


lemma pay_142: "py_int_times_float 100 (1604407367250739 / 1125899906842624) = Inr 142"
  using payout_ok(1)[of 100 "1604407367250739 / 1125899906842624"] by (simp add: fl_p142 floor_eq_iff)

lemma pay_213: "py_int_times_float 100 (4813222101752217 / 2251799813685248) = Inr 213"
  using payout_ok(1)[of 100 "4813222101752217 / 2251799813685248"] by (simp add: fl_p213 floor_eq_iff)


text \<open>
  The product in \<open>int(bet * multiplier)\<close> is rounded before it is truncated: with one
  mine, three reveals and a bet of 10240 the payout is 13851, while the exact product of
  the bet and the stored multiplier lies just below it.
\<close>

lemma formula_1_3: "multiplier_formula 1 3 = 3045867111265075 / 2251799813685248"
  by (simp add: multiplier_formula_def fl_nine_eighths fl_9_8_cubed fl_edge fl_m13
      power3_eq_cube)

lemma cm_1_3: "calculate_multiplier st 1 3 = Inr (3045867111265075 / 2251799813685248)"
  using multiplier_ok(1)[of 1 3 st] by (simp add: formula_1_3)

lemma payout_rounds_product:
  "py_int_times_float 10240 (3045867111265075 / 2251799813685248) = Inr 13851 \<and>
   \<lfloor>10240 * (3045867111265075 / 2251799813685248 :: rat)\<rfloor> = 13850"
  using payout_ok(1)[of 10240 "3045867111265075 / 2251799813685248"]
  by (simp add: fl_p13851 floor_eq_iff)
















lemma tiles_A0: "tile_at (setup_mines [0, 1, 2] create_grid) 0 0 = Some \<lparr>is_mine = True, revealed = False\<rparr>"
  by code_simp

lemma tiles_A1: "tile_at (setup_mines [0, 1, 2] create_grid) 0 1 = Some \<lparr>is_mine = False, revealed = False\<rparr>"
  by code_simp

lemma tiles_A2:
  "tile_at (tile_update 0 1 reveal (setup_mines [0, 1, 2] create_grid)) 1 1
     = Some \<lparr>is_mine = False, revealed = False\<rparr>"
  by code_simp


lemma nine_tiles: "TOTAL_TILES = 9"
  by (simp add: TOTAL_TILES_def GRID_WIDTH_def GRID_HEIGHT_def)



lemma session_A1:
  "session_after 1 100 3 [0, 1, 2] [Click 0 1] =
     ((MinesView_init 1 100 3 [0, 1, 2])
        \<lparr>tiles := tile_update 0 1 reveal (setup_mines [0, 1, 2] create_grid),
         tiles_revealed := 1,
         current_multiplier := 1604407367250739 / 1125899906842624,
         potential_win := 142\<rparr>,
      \<lparr>active_games = {1}, cash = (\<lambda>u. 0), trace = []\<rparr>)"
  by (simp del: One_nat_def add: session_after_def session_start_def
      click_safe[where t = "\<lparr>is_mine = False, revealed = False\<rparr>"
        and m = "1604407367250739 / 1125899906842624" and p = 142]
      MinesView_init_def tiles_A1 cm_3_1 pay_142 nine_tiles)

lemma session_A2:
  "session_after 1 100 3 [0, 1, 2] [Click 0 1, Click 1 1] =
     ((MinesView_init 1 100 3 [0, 1, 2])
        \<lparr>tiles := tile_update 1 1 reveal
                  (tile_update 0 1 reveal (setup_mines [0, 1, 2] create_grid)),
         tiles_revealed := 2,
         current_multiplier := 4813222101752217 / 2251799813685248,
         potential_win := 213\<rparr>,
      \<lparr>active_games = {1}, cash = (\<lambda>u. 0), trace = []\<rparr>)"
proof -
  have "session_after 1 100 3 [0, 1, 2] [Click 0 1, Click 1 1]
          = process_tile_click 1 1 (session_after 1 100 3 [0, 1, 2] [Click 0 1])"
    by (simp del: One_nat_def add: session_after_def)
  then show ?thesis
    by (simp del: One_nat_def add: session_A1
      click_safe[where t = "\<lparr>is_mine = False, revealed = False\<rparr>"
        and m = "4813222101752217 / 2251799813685248" and p = 213]
      MinesView_init_def tiles_A2 cm_3_2 pay_213 nine_tiles)
qed

lemma session_A3:
  "session_after 1 100 3 [0, 1, 2] [Click 0 1, Click 1 1, CashOut] =
     ((MinesView_init 1 100 3 [0, 1, 2])
        \<lparr>tiles := reveal_mines (tile_update 1 1 reveal
                  (tile_update 0 1 reveal (setup_mines [0, 1, 2] create_grid))),
         game_over := True, won := True,
         tiles_revealed := 2,
         current_multiplier := 4813222101752217 / 2251799813685248,
         potential_win := 213\<rparr>,
      \<lparr>active_games = {}, cash = (\<lambda>u. 0)(1 := 213),
       trace = [AddCash 1 213 ''mines_win'', RecordStats 1 100 213 3 2, SetGameOver]\<rparr>)"
proof -
  have "session_after 1 100 3 [0, 1, 2] [Click 0 1, Click 1 1, CashOut]
          = process_cashout (session_after 1 100 3 [0, 1, 2] [Click 0 1, Click 1 1])"
    by (simp del: One_nat_def add: session_after_def cashout_callback_def)
  then show ?thesis
    by (simp del: One_nat_def add: session_A2 cashout_eq MinesView_init_def
        pop_active_game_def emit_def record_mines_stats_def add_cash_def)
qed

lemma session_A_cashout:
  "trace (snd (session_after 1 100 3 [0, 1, 2] [Click 0 1, Click 1 1, CashOut])) =
     [AddCash 1 213 ''mines_win'', RecordStats 1 100 213 3 2, SetGameOver]"
  by (simp del: One_nat_def add: session_A3)

lemma session_A_loss:
  "session_after 1 100 3 [0, 1, 2] [Click 0 0] =
     ((MinesView_init 1 100 3 [0, 1, 2])
        \<lparr>tiles := reveal_mines (tile_update 0 0 reveal (setup_mines [0, 1, 2] create_grid)),
         game_over := True\<rparr>,
      \<lparr>active_games = {}, cash = (\<lambda>u. 0), trace = [SetGameOver, RecordStats 1 100 0 3 0]\<rparr>)"
  by (simp del: One_nat_def add: session_after_def session_start_def
      click_mine[where t = "\<lparr>is_mine = True, revealed = False\<rparr>"]
      MinesView_init_def tiles_A0 pop_active_game_def record_mines_stats_def emit_def)


lemma mines_parse_raised:
  "mines uid (BetText ParseRaised) modal_ok s = mines uid (BetText (Parsed DEFAULT_BET)) modal_ok s"
  by (simp add: mines_def)

lemma valid_100_4: "valid_start 100 4"
  by (simp add: valid_start_def MIN_BET_def MAX_BET_def MIN_MINES_def MAX_MINES_def nine_tiles)

lemma valid_40_3: "valid_start 40 3"
  by (simp add: valid_start_def MIN_BET_def MAX_BET_def MIN_MINES_def MAX_MINES_def nine_tiles)















section \<open>The claims\<close>

subsection \<open>C1: calls on a terminal session\<close>

text \<open>
  C1, as stated, fails: a session that is over is not left unchanged by every further
  call. After a loss (mines at positions 0, 1, 2, the player clicks the mine at (0, 0))
  the exit button's callback reveals the tiles that were still hidden, so the session's
  grid changes.
\<close>

theorem C1_exit_changes_terminal_session:
  "game_over (fst (session_after 1 100 3 [0, 1, 2] [Click 0 0])) \<and>
   fst (step Exit (session_after 1 100 3 [0, 1, 2] [Click 0 0]))
     \<noteq> fst (session_after 1 100 3 [0, 1, 2] [Click 0 0])"
proof -
  have ne: "reveal_all (reveal_mines (tile_update 0 0 reveal (setup_mines [0, 1, 2] create_grid)))
              \<noteq> reveal_mines (tile_update 0 0 reveal (setup_mines [0, 1, 2] create_grid))"
    by code_simp
  have "tiles (fst (step Exit (session_after 1 100 3 [0, 1, 2] [Click 0 0])))
          \<noteq> tiles (fst (session_after 1 100 3 [0, 1, 2] [Click 0 0]))"
    using ne by (simp del: One_nat_def add: session_A_loss exit_game_over MinesView_init_def)
  moreover have "game_over (fst (session_after 1 100 3 [0, 1, 2] [Click 0 0]))"
    by (simp del: One_nat_def add: session_A_loss)
  ultimately show ?thesis by auto
qed

text \<open>
  C1, amended: once \<open>game_over\<close> is set, a reveal, a cashout and a timeout are no-ops that
  change nothing of the session, the ledger or the statistics. An exit changes nothing of
  the session but the tiles, of which it reveals those still hidden: the bet, the
  multiplier, the potential payout, the number of reveals and the flags \<open>game_over\<close> and
  \<open>won\<close> stay, and it calls neither the ledger nor the statistics. So the terminal status
  never changes again, and no call on a terminal session credits the ledger.
\<close>

theorem C1_terminal_calls:
  assumes "game_over v"
  shows "process_tile_click x y (v, s) = (v, s) \<and>
         cashout_callback (v, s) = (v, s) \<and>
         on_timeout (v, s) = (v, s) \<and>
         fst (exit_callback (v, s)) = v\<lparr>tiles := reveal_all (tiles v)\<rparr> \<and>
         credited (trace (snd (exit_callback (v, s)))) = credited (trace s) \<and>
         recorded (trace (snd (exit_callback (v, s)))) = recorded (trace s) \<and>
         cash (snd (exit_callback (v, s))) = cash s"
  using assms
  by (simp add: click_game_over cashout_callback_def cashout_noop timeout_game_over
      exit_game_over)

theorem C1_witness:
  "game_over (fst (session_after 1 100 3 [0, 1, 2] [Click 0 0])) \<and>
   step (Click 0 1) (session_after 1 100 3 [0, 1, 2] [Click 0 0])
     = session_after 1 100 3 [0, 1, 2] [Click 0 0] \<and>
   step CashOut (session_after 1 100 3 [0, 1, 2] [Click 0 0])
     = session_after 1 100 3 [0, 1, 2] [Click 0 0] \<and>
   step Timeout (session_after 1 100 3 [0, 1, 2] [Click 0 0])
     = session_after 1 100 3 [0, 1, 2] [Click 0 0] \<and>
   game_over (fst (step Exit (session_after 1 100 3 [0, 1, 2] [Click 0 0]))) \<and>
   \<not> won (fst (step Exit (session_after 1 100 3 [0, 1, 2] [Click 0 0]))) \<and>
   credited (trace (snd (step Exit (session_after 1 100 3 [0, 1, 2] [Click 0 0])))) = [] \<and>
   recorded (trace (snd (step Exit (session_after 1 100 3 [0, 1, 2] [Click 0 0]))))
     = [RecordStats 1 100 0 3 0]"
proof -
  have g: "game_over (fst (session_after 1 100 3 [0, 1, 2] [Click 0 0]))"
    by (simp del: One_nat_def add: session_A_loss)
  have c: "credited (trace (snd (session_after 1 100 3 [0, 1, 2] [Click 0 0]))) = []"
    "recorded (trace (snd (session_after 1 100 3 [0, 1, 2] [Click 0 0])))
       = [RecordStats 1 100 0 3 0]"
    "\<not> won (fst (session_after 1 100 3 [0, 1, 2] [Click 0 0]))"
    by (simp_all del: One_nat_def add: session_A_loss MinesView_init_def)
  from C1_terminal_calls[OF g, of 0 1 "snd (session_after 1 100 3 [0, 1, 2] [Click 0 0])"] g c
  show ?thesis by (simp del: One_nat_def)
qed

subsection \<open>C2: the terminal write and the credit\<close>

text \<open>
  C2 does not hold of the cashout: \<open>_process_cashout\<close> calls the ledger and the statistics
  first and assigns \<open>game_over\<close> afterwards, whereas \<open>_handle_victory\<close> assigns it first.
  With the mines at positions 0, 1, 2 and a bet of 100, two safe reveals and a cashout
  give this trace, the credit of 213 before the write.
\<close>

theorem C2_cashout_credits_before_game_over:
  "trace (snd (session_after 1 100 3 [0, 1, 2] [Click 0 1, Click 1 1, CashOut])) =
     [AddCash 1 213 ''mines_win'', RecordStats 1 100 213 3 2, SetGameOver]"
  by (rule session_A_cashout)

subsection \<open>C3: the multiplier\<close>

text \<open>
  C3, as stated, fails in its example: with 3 mines the multiplier after one reveal is
  not 1.425, neither the rational nor the binary64 number nearest to it, since \<open>0.95\<close>
  is a binary64 number and its product with \<open>1.5\<close> is rounded; likewise after two
  reveals it is not 2.1375.
\<close>

theorem C3_multiplier_is_not_1425:
  "calculate_multiplier 6 3 1 \<noteq> Inr (1425 / 1000) \<and>
   calculate_multiplier 6 3 1 \<noteq> Inr (fl (1425 / 1000)) \<and>
   calculate_multiplier 6 3 2 \<noteq> Inr (21375 / 10000) \<and>
   calculate_multiplier 6 3 2 \<noteq> Inr (fl (21375 / 10000))"
  by (simp add: cm_3_1 cm_3_2 fl_1425 fl_21375)

text \<open>
  C3, amended: the multiplier is 1 for no reveal; for a mine count from 1 to 8 and a number
  of reveals up to the number of safe tiles it is the formula of the specification with
  every operation rounded to binary64. With 3 mines and a bet of 100, after one safe
  reveal the multiplier is 1.4249999999999998 (less than one unit in the last place from
  1.425) and the potential payout 142; after two it is 2.1374999999999997 and 213.
\<close>

theorem C3_multiplier_formula:
  assumes "MIN_MINES \<le> mc" "mc \<le> MAX_MINES" "0 \<le> k" "k \<le> TOTAL_TILES - mc"
  shows "calculate_multiplier st mc 0 = Inr 1 \<and>
         calculate_multiplier st mc k = Inr (spec_multiplier TOTAL_TILES mc k) \<and>
         calculate_multiplier 6 3 1 = Inr (1604407367250739 / 1125899906842624) \<and>
         \<bar>1604407367250739 / 1125899906842624 - 1425 / 1000 :: rat\<bar> < 1 / 2 ^ 52 \<and>
         current_multiplier (fst (session_after 1 100 3 [0, 1, 2] [Click 0 1]))
           = 1604407367250739 / 1125899906842624 \<and>
         potential_win (fst (session_after 1 100 3 [0, 1, 2] [Click 0 1])) = 142 \<and>
         calculate_multiplier 6 3 2 = Inr (4813222101752217 / 2251799813685248) \<and>
         \<bar>4813222101752217 / 2251799813685248 - 21375 / 10000 :: rat\<bar> < 1 / 2 ^ 51 \<and>
         current_multiplier (fst (session_after 1 100 3 [0, 1, 2] [Click 0 1, Click 1 1]))
           = 4813222101752217 / 2251799813685248 \<and>
         potential_win (fst (session_after 1 100 3 [0, 1, 2] [Click 0 1, Click 1 1])) = 213"
proof -
  from assms have m: "1 \<le> mc" "mc \<le> 8" and k: "0 \<le> k" "k \<le> 8"
    by (simp_all add: MIN_MINES_def MAX_MINES_def nine_tiles)
  have "calculate_multiplier st mc k = Inr (spec_multiplier TOTAL_TILES mc k)"
  proof (cases "k = 0")
    case True
    then show ?thesis by (simp add: calculate_multiplier_def spec_multiplier_def)
  next
    case False
    with k have "1 \<le> k" by simp
    from multiplier_ok(1)[OF m this k(2), of st] False show ?thesis
      by (simp add: spec_multiplier_formula)
  qed
  moreover have "calculate_multiplier st mc 0 = Inr 1"
    by (simp add: calculate_multiplier_def)
  ultimately show ?thesis
    by (simp del: One_nat_def add: cm_3_1 cm_3_2 session_A1 session_A2)
qed

theorem C3_witness:
  "MIN_MINES \<le> 3 \<and> 3 \<le> MAX_MINES \<and> (0 :: int) \<le> 1 \<and> 1 \<le> TOTAL_TILES - 3 \<and>
   calculate_multiplier 6 3 1 = Inr (spec_multiplier TOTAL_TILES 3 1) \<and>
   potential_win (fst (session_after 1 100 3 [0, 1, 2] [Click 0 1])) = 142 \<and>
   potential_win (fst (session_after 1 100 3 [0, 1, 2] [Click 0 1, Click 1 1])) = 213"
  using C3_multiplier_formula[of 3 1 6]
  by (simp add: MIN_MINES_def MAX_MINES_def nine_tiles)

subsection \<open>C4: the multiplier is non-decreasing and bounded\<close>

text \<open>
  C4: for every mine count from \<open>MIN_MINES\<close> to \<open>MAX_MINES\<close> and every number \<open>k\<close> of
  reveals from 1 to the number of safe tiles, the multiplier at \<open>k\<close> is at least the
  multiplier at \<open>k - 1\<close> (the step from 1 at no reveal included), and both lie between 1
  and 1000.
\<close>

theorem C4_multiplier_monotone_bounded:
  assumes "MIN_MINES \<le> mc" "mc \<le> MAX_MINES" "1 \<le> k" "k \<le> TOTAL_TILES - mc"
  shows "\<exists>a b. calculate_multiplier (TOTAL_TILES - mc) mc k = Inr a \<and>
               calculate_multiplier (TOTAL_TILES - mc) mc (k - 1) = Inr b \<and>
               b \<le> a \<and> 1 \<le> b \<and> 1 \<le> a \<and> a \<le> 1000"
proof -
  from assms have m: "1 \<le> mc" "mc \<le> 8" and k: "1 \<le> k" "k \<le> 8"
    by (simp_all add: MIN_MINES_def MAX_MINES_def nine_tiles)
  let ?st = "TOTAL_TILES - mc"
  have a: "calculate_multiplier ?st mc k = Inr (multiplier_formula mc k)"
    by (rule multiplier_ok(1)[OF m k])
  note ab = multiplier_ok(2,3)[OF m k]
  show ?thesis
  proof (cases "k = 1")
    case True
    then have "calculate_multiplier ?st mc (k - 1) = Inr 1"
      by (simp add: calculate_multiplier_def)
    with a ab show ?thesis by simp
  next
    case False
    with k have k2: "2 \<le> k" "1 \<le> k - 1" "k - 1 \<le> 8" by simp_all
    have b: "calculate_multiplier ?st mc (k - 1) = Inr (multiplier_formula mc (k - 1))"
      by (rule multiplier_ok(1)[OF m k2(2,3)])
    note bb = multiplier_ok(2)[OF m k2(2,3)]
    from a b ab bb multiplier_mono[OF m k2(1) k(2)] show ?thesis by simp
  qed
qed

theorem C4_witness:
  "MIN_MINES \<le> 3 \<and> 3 \<le> MAX_MINES \<and> (1 :: int) \<le> 2 \<and> 2 \<le> TOTAL_TILES - 3 \<and>
   (\<exists>a b. calculate_multiplier (TOTAL_TILES - 3) 3 2 = Inr a \<and>
          calculate_multiplier (TOTAL_TILES - 3) 3 (2 - 1) = Inr b \<and>
          b \<le> a \<and> 1 \<le> b \<and> 1 \<le> a \<and> a \<le> 1000)"
  using C4_multiplier_monotone_bounded[of 3 2]
  by (simp add: MIN_MINES_def MAX_MINES_def nine_tiles)

subsection \<open>C5: the payout\<close>




subsection \<open>C6: the full clear\<close>




subsection \<open>C7: exit\<close>

text \<open>
  C7: on every session that is not over (with the positive bet every session has), the
  exit callback with no tile revealed passes exactly the bet to the ledger, a credit of
  the full bet, and with tiles revealed it makes no ledger call at all.
\<close>

theorem C7_exit_refund_or_forfeit:
  assumes "\<not> game_over v" "0 < bet v"
  shows "(tiles_revealed v = 0 \<longrightarrow>
            trace (snd (exit_callback (v, s)))
              = trace s @ [AddCash (user_id v) (bet v) ''mines_win'', SetGameOver] \<and>
            cash (snd (exit_callback (v, s)))
              = (cash s)(user_id v := cash s (user_id v) + bet v)) \<and>
         (tiles_revealed v \<noteq> 0 \<longrightarrow>
            trace (snd (exit_callback (v, s))) = trace s @ [SetGameOver] \<and>
            cash (snd (exit_callback (v, s))) = cash s)"
  using assms by (simp add: exit_refund exit_forfeit)

theorem C7_witness:
  "\<not> game_over (fst (session_after 1 100 3 [0, 1, 2] [])) \<and>
   0 < bet (fst (session_after 1 100 3 [0, 1, 2] [])) \<and>
   tiles_revealed (fst (session_after 1 100 3 [0, 1, 2] [])) = 0 \<and>
   trace (snd (step Exit (session_after 1 100 3 [0, 1, 2] [])))
     = [AddCash 1 100 ''mines_win'', SetGameOver] \<and>
   cash (snd (step Exit (session_after 1 100 3 [0, 1, 2] []))) 1 = 100 \<and>
   \<not> game_over (fst (session_after 1 100 3 [0, 1, 2] [Click 0 1])) \<and>
   0 < bet (fst (session_after 1 100 3 [0, 1, 2] [Click 0 1])) \<and>
   tiles_revealed (fst (session_after 1 100 3 [0, 1, 2] [Click 0 1])) = 1 \<and>
   trace (snd (step Exit (session_after 1 100 3 [0, 1, 2] [Click 0 1]))) = [SetGameOver] \<and>
   cash (snd (step Exit (session_after 1 100 3 [0, 1, 2] [Click 0 1]))) 1 = 0"
proof -
  let ?w0 = "session_after 1 100 3 [0, 1, 2] []"
  let ?w1 = "session_after 1 100 3 [0, 1, 2] [Click 0 1]"
  have w0: "?w0 = (MinesView_init 1 100 3 [0, 1, 2],
                  \<lparr>active_games = {1}, cash = (\<lambda>u. 0), trace = []\<rparr>)"
    by (simp del: One_nat_def add: session_after_def session_start_def)
  have a0: "\<not> game_over (fst ?w0)" "0 < bet (fst ?w0)" "tiles_revealed (fst ?w0) = 0"
    "user_id (fst ?w0) = 1" "bet (fst ?w0) = 100" "trace (snd ?w0) = []" "cash (snd ?w0) = (\<lambda>u. 0)"
    by (simp_all del: One_nat_def add: w0 MinesView_init_def)
  have a1: "\<not> game_over (fst ?w1)" "0 < bet (fst ?w1)" "tiles_revealed (fst ?w1) = 1"
    "trace (snd ?w1) = []" "cash (snd ?w1) = (\<lambda>u. 0)"
    by (simp_all del: One_nat_def add: session_A1 MinesView_init_def)
  have "step Exit ?w0 = exit_callback (fst ?w0, snd ?w0)"
    and "step Exit ?w1 = exit_callback (fst ?w1, snd ?w1)"
    by simp_all
  with C7_exit_refund_or_forfeit[OF a0(1,2), of "snd ?w0"]
    C7_exit_refund_or_forfeit[OF a1(1,2), of "snd ?w1"] a0 a1
  show ?thesis by (simp del: One_nat_def)
qed

subsection \<open>C8: timeout\<close>



subsection \<open>C9: validation failures\<close>

text \<open>
  C9, as stated, fails for a malformed bet on which the parser raises: the command
  catches the exception, goes on with \<open>DEFAULT_BET = 50\<close> and debits it. A player with a
  balance of 500 and no game is sent the mine-count modal for a bet of 50 and is left
  with 450.
\<close>

theorem C9_parser_exception_bets_default:
  "fst (mines 1 (BetText ParseRaised) True (idle_sys 500)) = ModalSent 50 \<and>
   cash (snd (mines 1 (BetText ParseRaised) True (idle_sys 500))) 1 = 450 \<and>
   trace (snd (mines 1 (BetText ParseRaised) True (idle_sys 500)))
     = [AddCash 1 (- 50) ''mines_bet'']"
  by (simp add: mines_def Let_def idle_sys_def DEFAULT_BET_def MIN_BET_def MAX_BET_def
      add_cash_def emit_def)

text \<open>
  C9, amended: the command rejects a bet for which the parser returns \<open>None\<close>, a bet below
  \<open>MIN_BET = 10\<close>, above \<open>MAX_BET = 500000\<close> or above the player's balance (also for \<^verbatim>\<open>all\<close>)
  before any ledger call: the ledger, the trace and the registry are as before. A bet on
  which the parser raises is not rejected: it is handled as a bet of \<open>DEFAULT_BET = 50\<close>,
  which a player with no game and a balance of at least 50 is debited. Once the bet was
  taken, a mine count that is not a number or lies outside \<open>MIN_MINES .. MAX_MINES\<close>
  creates no view and is answered by a credit of the full bet, so that the balances are
  those before the command.
\<close>

theorem C9_validation_keeps_balance:
  "snd (mines uid (BetText ParsedNone) modal_ok s) = s \<and>
   (n < MIN_BET \<or> MAX_BET < n \<or> cash s uid < n \<longrightarrow>
      snd (mines uid (BetText (Parsed n)) modal_ok s) = s) \<and>
   (cash s uid < MIN_BET \<or> MAX_BET < cash s uid \<longrightarrow> snd (mines uid BetAll modal_ok s) = s) \<and>
   mines uid (BetText ParseRaised) modal_ok s
     = mines uid (BetText (Parsed DEFAULT_BET)) modal_ok s \<and>
   (uid \<notin> active_games s \<and> DEFAULT_BET \<le> cash s uid \<longrightarrow>
      fst (mines uid (BetText ParseRaised) True s) = ModalSent DEFAULT_BET \<and>
      trace (snd (mines uid (BetText ParseRaised) True s))
        = trace s @ [AddCash uid (- DEFAULT_BET) ''mines_bet''] \<and>
      cash (snd (mines uid (BetText ParseRaised) True s))
        = (cash s)(uid := cash s uid - DEFAULT_BET)) \<and>
   (mines uid arg True s = (ModalSent amt, s1) \<longrightarrow>
    mines_input = None \<or> (\<exists>m. mines_input = Some m \<and> (m < MIN_MINES \<or> MAX_MINES < m)) \<longrightarrow>
      fst (MinesCountModal_callback uid amt mines_input ps s1) = None \<and>
      trace (snd (MinesCountModal_callback uid amt mines_input ps s1))
        = trace s @ [AddCash uid (- amt) ''mines_bet'', AddCash uid amt ''mines_win''] \<and>
      cash (snd (MinesCountModal_callback uid amt mines_input ps s1)) = cash s)"
proof -
  have rej: "snd (mines uid (BetText ParsedNone) modal_ok s) = s"
    by (simp add: mines_def)
  have low: "snd (mines uid (BetText (Parsed n)) modal_ok s) = s"
    if "n < MIN_BET \<or> MAX_BET < n \<or> cash s uid < n"
    using that by (auto simp add: mines_def Let_def)
  have allb: "snd (mines uid BetAll modal_ok s) = s"
    if "cash s uid < MIN_BET \<or> MAX_BET < cash s uid"
    using that by (auto simp add: mines_def Let_def)
  have raised: "mines uid (BetText ParseRaised) modal_ok s
                  = mines uid (BetText (Parsed DEFAULT_BET)) modal_ok s"
    by (simp add: mines_def)
  have dflt: "fst (mines uid (BetText ParseRaised) True s) = ModalSent DEFAULT_BET \<and>
      trace (snd (mines uid (BetText ParseRaised) True s))
        = trace s @ [AddCash uid (- DEFAULT_BET) ''mines_bet''] \<and>
      cash (snd (mines uid (BetText ParseRaised) True s))
        = (cash s)(uid := cash s uid - DEFAULT_BET)"
    if "uid \<notin> active_games s \<and> DEFAULT_BET \<le> cash s uid"
    using that
    by (simp add: mines_def Let_def DEFAULT_BET_def MIN_BET_def MAX_BET_def add_cash_def emit_def)
  have modal: "fst (MinesCountModal_callback uid amt mines_input ps s1) = None \<and>
      trace (snd (MinesCountModal_callback uid amt mines_input ps s1))
        = trace s @ [AddCash uid (- amt) ''mines_bet'', AddCash uid amt ''mines_win''] \<and>
      cash (snd (MinesCountModal_callback uid amt mines_input ps s1)) = cash s"
    if sent: "mines uid arg True s = (ModalSent amt, s1)"
      and bad: "mines_input = None \<or> (\<exists>m. mines_input = Some m \<and> (m < MIN_MINES \<or> MAX_MINES < m))"
  proof -
    from sent have amt: "MIN_BET \<le> amt"
      and s1: "s1 = (add_cash uid (- amt) ''mines_bet'' s)
                      \<lparr>active_games := insert uid (active_games s)\<rparr>"
      by (auto simp add: mines_def Let_def split: if_splits bet_arg.splits parse_result.splits)
    from amt have pos: "0 < amt" by (simp add: MIN_BET_def)
    from bad have cb: "MinesCountModal_callback uid amt mines_input ps s1
                         = (None, update_user_balance uid amt s1)"
      by (auto simp add: MinesCountModal_callback_def)
    show ?thesis
      unfolding cb using pos by (simp add: s1 update_user_balance_def add_cash_def emit_def)
  qed
  from rej low allb raised dflt modal show ?thesis by blast
qed

theorem C9_witness:
  "snd (mines 1 (BetText ParsedNone) True \<lparr>active_games = {}, cash = (\<lambda>u. 500), trace = []\<rparr>)
     = \<lparr>active_games = {}, cash = (\<lambda>u. 500), trace = []\<rparr> \<and>
   (5 :: int) < MIN_BET \<and>
   snd (mines 1 (BetText (Parsed 5)) True \<lparr>active_games = {}, cash = (\<lambda>u. 500), trace = []\<rparr>)
     = \<lparr>active_games = {}, cash = (\<lambda>u. 500), trace = []\<rparr> \<and>
   MAX_BET < 600000 \<and>
   snd (mines 1 (BetText (Parsed 600000)) True
          \<lparr>active_games = {}, cash = (\<lambda>u. 1000000), trace = []\<rparr>)
     = \<lparr>active_games = {}, cash = (\<lambda>u. 1000000), trace = []\<rparr> \<and>
   cash \<lparr>active_games = {}, cash = (\<lambda>u. 500), trace = []\<rparr> 1 < 600 \<and>
   snd (mines 1 (BetText (Parsed 600)) True \<lparr>active_games = {}, cash = (\<lambda>u. 500), trace = []\<rparr>)
     = \<lparr>active_games = {}, cash = (\<lambda>u. 500), trace = []\<rparr> \<and>
   cash \<lparr>active_games = {}, cash = (\<lambda>u. 5), trace = []\<rparr> 1 < MIN_BET \<and>
   snd (mines 1 BetAll True \<lparr>active_games = {}, cash = (\<lambda>u. 5), trace = []\<rparr>)
     = \<lparr>active_games = {}, cash = (\<lambda>u. 5), trace = []\<rparr> \<and>
   1 \<notin> active_games \<lparr>active_games = {}, cash = (\<lambda>u. 500), trace = []\<rparr> \<and>
   DEFAULT_BET \<le> cash \<lparr>active_games = {}, cash = (\<lambda>u. 500), trace = []\<rparr> 1 \<and>
   fst (mines 1 (BetText ParseRaised) True \<lparr>active_games = {}, cash = (\<lambda>u. 500), trace = []\<rparr>)
     = ModalSent 50 \<and>
   trace (snd (mines 1 (BetText ParseRaised) True
                 \<lparr>active_games = {}, cash = (\<lambda>u. 500), trace = []\<rparr>))
     = [AddCash 1 (- 50) ''mines_bet''] \<and>
   cash (snd (mines 1 (BetText ParseRaised) True
                \<lparr>active_games = {}, cash = (\<lambda>u. 500), trace = []\<rparr>)) 1 = 450 \<and>
   snd (mines 1 (BetText ParseRaised) True \<lparr>active_games = {}, cash = (\<lambda>u. 5), trace = []\<rparr>)
     = \<lparr>active_games = {}, cash = (\<lambda>u. 5), trace = []\<rparr> \<and>
   mines 1 (BetText (Parsed 100)) True \<lparr>active_games = {}, cash = (\<lambda>u. 500), trace = []\<rparr>
     = (ModalSent 100,
        \<lparr>active_games = {1}, cash = (\<lambda>u. 500)(1 := 400),
         trace = [AddCash 1 (- 100) ''mines_bet'']\<rparr>) \<and>
   MAX_MINES < 9 \<and>
   fst (MinesCountModal_callback 1 100 (Some 9) [0, 1, 2]
         \<lparr>active_games = {1}, cash = (\<lambda>u. 500)(1 := 400),
          trace = [AddCash 1 (- 100) ''mines_bet'']\<rparr>) = None \<and>
   trace (snd (MinesCountModal_callback 1 100 (Some 9) [0, 1, 2]
         \<lparr>active_games = {1}, cash = (\<lambda>u. 500)(1 := 400),
          trace = [AddCash 1 (- 100) ''mines_bet'']\<rparr>))
     = [AddCash 1 (- 100) ''mines_bet'', AddCash 1 100 ''mines_win''] \<and>
   cash (snd (MinesCountModal_callback 1 100 (Some 9) [0, 1, 2]
         \<lparr>active_games = {1}, cash = (\<lambda>u. 500)(1 := 400),
          trace = [AddCash 1 (- 100) ''mines_bet'']\<rparr>)) = (\<lambda>u. 500) \<and>
   cash (snd (MinesCountModal_callback 1 100 None [0, 1, 2]
         \<lparr>active_games = {1}, cash = (\<lambda>u. 500)(1 := 400),
          trace = [AddCash 1 (- 100) ''mines_bet'']\<rparr>)) = (\<lambda>u. 500)"
proof -
  let ?s = "\<lparr>active_games = {}, cash = (\<lambda>u. 500 :: int), trace = []\<rparr>"
  let ?sm = "\<lparr>active_games = {}, cash = (\<lambda>u. 1000000 :: int), trace = []\<rparr>"
  let ?sp = "\<lparr>active_games = {}, cash = (\<lambda>u. 5 :: int), trace = []\<rparr>"
  let ?s1 = "\<lparr>active_games = {1}, cash = (\<lambda>u. 500 :: int)(1 := 400),
              trace = [AddCash 1 (- 100) ''mines_bet'']\<rparr>"
  have sent: "mines 1 (BetText (Parsed 100)) True ?s = (ModalSent 100, ?s1)"
    by (simp add: mines_def Let_def MIN_BET_def MAX_BET_def add_cash_def emit_def)
  have c: "(5 :: int) < MIN_BET" "cash ?s 1 < 600" "MAX_MINES < 9" "MAX_BET < 600000"
    "cash ?sp 1 < MIN_BET" "1 \<notin> active_games ?s" "DEFAULT_BET \<le> cash ?s 1"
    "cash ?sp 1 < DEFAULT_BET" "DEFAULT_BET = 50"
    by (simp_all add: MIN_BET_def MAX_BET_def MAX_MINES_def DEFAULT_BET_def nine_tiles)
  from C9_validation_keeps_balance[of 1 True ?s 5 "BetText (Parsed 100)" 100 ?s1 "Some 9" "[0, 1, 2]"]
    C9_validation_keeps_balance[of 1 True ?s 600 "BetText (Parsed 100)" 100 ?s1 None "[0, 1, 2]"]
    C9_validation_keeps_balance[of 1 True ?sm 600000]
    C9_validation_keeps_balance[of 1 True ?sp]
    C9_validation_keeps_balance[of 1 True ?sp DEFAULT_BET]
    sent c
  show ?thesis by (simp del: One_nat_def)
qed

subsection \<open>C10: the outcome record\<close>




end
